theory Spec2Isabelle
  imports
    Main
    "HOL-Library.Word"
    "HOL-Library.Signed_Division"
    "HOL-Library.Stream"
    "HOL-Library.List_Lexorder"
begin

unbundle bit_operations_syntax

section \<open>Data model of generator.go\<close>

type_synonym byte = "8 word"

text \<open>A UUID is Go's \<^verbatim>\<open>[16]byte\<close>: a byte list, of length 16 wherever the code builds one.\<close>

type_synonym UUID = "byte list"

definition Nil_UUID :: UUID where
  "Nil_UUID = replicate 16 0"

text \<open>
  The errors the generator returns: a failed \<^verbatim>\<open>io.ReadFull\<close> on the random source, the
  \<^verbatim>\<open>errors.New("batch size must be greater than zero")\<close> of \<^verbatim>\<open>GenerateBatchV7\<close>, and
  whatever the hardware-address function reports.
\<close>

datatype error = RandError | BatchSizeError | HWAddrError

subsection \<open>The collaborators: time and the random source\<close>

text \<open>
  Go's \<^verbatim>\<open>time.Time\<close>, as the two quantities its \<^verbatim>\<open>UnixMilli\<close> and \<^verbatim>\<open>UnixNano\<close> are computed
  from: whole seconds since the Unix epoch and the nanoseconds within the second.
  Both methods return an \<^verbatim>\<open>int64\<close>; the code converts with \<^verbatim>\<open>uint64(...)\<close>, which keeps
  the 64 bits, so the results are 64-bit words.
\<close>

datatype Time = Time (unixSec: int) (nsec: nat)

definition UnixMilli :: "Time \<Rightarrow> 64 word" where
  "UnixMilli t = word_of_int (unixSec t * 1000 + int (nsec t) div 1000000)"

definition UnixNano :: "Time \<Rightarrow> 64 word" where
  "UnixNano t = word_of_int (unixSec t * 1000000000 + int (nsec t))"

text \<open>
  An \<^verbatim>\<open>io.Reader\<close>, seen through \<^verbatim>\<open>io.ReadFull\<close>: asked for \<open>n\<close> bytes it delivers a
  list of bytes and becomes the next reader. Delivering fewer than \<open>n\<close> bytes is a failed
  read (\<^verbatim>\<open>ReadFull\<close> returns an error exactly when the buffer was not filled); the bytes
  delivered before the failure are in the buffer all the same.
\<close>

codatatype Reader = Reader (deliver: "nat \<Rightarrow> byte list \<times> Reader")

definition ReadFull :: "Reader \<Rightarrow> byte list \<Rightarrow> error option \<times> byte list \<times> Reader" where
  "ReadFull r buf =
     (case deliver r (length buf) of (bs, r') \<Rightarrow>
        let got = take (length buf) bs in
        (if length got < length buf then Some RandError else None,
         got @ drop (length got) buf,
         r'))"

text \<open>A random source that always returns zero bytes, and one that fails after \<open>k\<close> bytes
  of every read.\<close>

primcorec zeroReader :: Reader where
  "deliver zeroReader = (\<lambda>n. (replicate n 0, zeroReader))"

primcorec shortReader :: "nat \<Rightarrow> byte \<Rightarrow> Reader" where
  "deliver (shortReader k b) = (\<lambda>n. (replicate (min n k) b, shortReader k b))"

subsection \<open>The generator's state\<close>

text \<open>
  \<^verbatim>\<open>type Gen struct\<close>. A \<^verbatim>\<open>sync.Once\<close> is its done flag. The mutexes are left out: the
  model runs one call at a time. \<open>epochFunc\<close> is the stream of instants the successive
  calls of the \<^verbatim>\<open>EpochFunc\<close> return; \<open>hwAddrFunc\<close> is the \<^verbatim>\<open>HWAddrFunc\<close>.
\<close>

record Gen =
  clockSequenceOnce :: bool
  hardwareAddrOnce :: bool
  rand :: Reader
  epochFunc :: "Time stream"
  hwAddrFunc :: "unit \<Rightarrow> error + byte list"
  lastTime :: "64 word"
  clockSequence :: "16 word"
  hardwareAddr :: "byte list"

text \<open>\<^verbatim>\<open>type MonotonicGen struct { Gen; monotonicCounter uint16; monotonicMutex sync.Mutex }\<close>:
  the embedded \<^verbatim>\<open>Gen\<close> with one more field.\<close>

record MonotonicGen = Gen +
  monotonicCounter :: "16 word"

text \<open>\<^verbatim>\<open>NewGenWithOptions\<close> with the three options given: every other field is Go's zero
  value.\<close>

definition NewGenWithOptions ::
  "(unit \<Rightarrow> error + byte list) \<Rightarrow> Time stream \<Rightarrow> Reader \<Rightarrow> Gen" where
  "NewGenWithOptions hwaf epochf reader =
     \<lparr>clockSequenceOnce = False, hardwareAddrOnce = False, rand = reader,
      epochFunc = epochf, hwAddrFunc = hwaf, lastTime = 0, clockSequence = 0,
      hardwareAddr = replicate 6 0\<rparr>"

definition NewMonotonicGen ::
  "(unit \<Rightarrow> error + byte list) \<Rightarrow> Time stream \<Rightarrow> Reader \<Rightarrow> MonotonicGen" where
  "NewMonotonicGen hwaf epochf reader =
     Gen.extend (NewGenWithOptions hwaf epochf reader) \<lparr>monotonicCounter = 0\<rparr>"

section \<open>Byte-level helpers\<close>

text \<open>Go's \<^verbatim>\<open>copy(dst, src)\<close>: the first \<open>min (len dst) (len src)\<close> bytes of \<open>dst\<close> are
  overwritten.\<close>

definition copy_bytes :: "byte list \<Rightarrow> byte list \<Rightarrow> byte list" where
  "copy_bytes dst src = take (length dst) src @ drop (length src) dst"

text \<open>\<^verbatim>\<open>binary.BigEndian\<close>, with the offset of the slice \<^verbatim>\<open>u[off:]\<close> as an argument.\<close>

definition PutUint16 :: "byte list \<Rightarrow> nat \<Rightarrow> 16 word \<Rightarrow> byte list" where
  "PutUint16 u off v = u[off := ucast (drop_bit 8 v), off + 1 := ucast v]"

definition PutUint32 :: "byte list \<Rightarrow> nat \<Rightarrow> 32 word \<Rightarrow> byte list" where
  "PutUint32 u off v =
     u[off := ucast (drop_bit 24 v), off + 1 := ucast (drop_bit 16 v),
       off + 2 := ucast (drop_bit 8 v), off + 3 := ucast v]"

definition Uint16 :: "byte list \<Rightarrow> 16 word" where
  "Uint16 b = ucast (b ! 1) OR push_bit 8 (ucast (b ! 0))"

text \<open>
  Modelled from the spec: \<^verbatim>\<open>UUID.SetVersion\<close> and \<^verbatim>\<open>UUID.SetVariant(VariantRFC9562)\<close> are
  methods of the repository's UUID type, which is not among the source files. The
  spec (sections 3 and 4.4): the version nibble, bits 48-51 (the top four bits of byte
  6), is overwritten with the version; the variant, bits 64-65 (the top two bits of
  byte 8), is overwritten with the fixed pattern \<open>10\<close>. The comments at their calls in
  generator.go say the same: "override first 4bits of u[6]", "override first 2 bits of
  byte[8] for the variant".
\<close>

definition SetVersion :: "byte \<Rightarrow> UUID \<Rightarrow> UUID" where
  "SetVersion v u = u[6 := (u ! 6 AND 0x0f) OR push_bit 4 v]"

definition SetVariant :: "UUID \<Rightarrow> UUID" where
  "SetVariant u = u[8 := (u ! 8 AND 0x3f) OR 0x80]"

section \<open>The clock-sequence tracker, the monotonic counter, the hardware address\<close>

definition epochStart :: "64 word" where
  "epochStart = 122192928000000000"

text \<open>\<^verbatim>\<open>epochStart + uint64(atTime.UnixNano()/100)\<close>: the division is Go's, on \<^verbatim>\<open>int64\<close>,
  truncating towards zero.\<close>

definition getEpoch :: "Time \<Rightarrow> 64 word" where
  "getEpoch atTime = epochStart + word_of_int (sint (UnixNano atTime) sdiv 100)"

text \<open>The timestamp both trackers compute first: \<^verbatim>\<open>uint64(atTime.UnixMilli())\<close> when
  \<^verbatim>\<open>useUnixTSMs\<close> is set, \<^verbatim>\<open>g.getEpoch(atTime)\<close> otherwise.\<close>

definition timestampOf :: "bool \<Rightarrow> Time \<Rightarrow> 64 word" where
  "timestampOf useUnixTSMs atTime =
     (if useUnixTSMs then UnixMilli atTime else getEpoch atTime)"

text \<open>\<^verbatim>\<open>g.clockSequenceOnce.Do(...)\<close>: the seeding runs when the flag is not set, and the
  flag is set when it returns, also when the read failed.\<close>

definition seedClockSequence :: "'a Gen_scheme \<Rightarrow> error option \<times> 'a Gen_scheme" where
  "seedClockSequence g =
     (if clockSequenceOnce g then (None, g)
      else (case ReadFull (rand g) (replicate 2 0) of
              (Some e, buf, r') \<Rightarrow> (Some e, g\<lparr>clockSequenceOnce := True, rand := r'\<rparr>)
            | (None, buf, r') \<Rightarrow>
                (None, g\<lparr>clockSequenceOnce := True, rand := r', clockSequence := Uint16 buf\<rparr>)))"

definition getClockSequence ::
  "'a Gen_scheme \<Rightarrow> bool \<Rightarrow> Time \<Rightarrow> (error + 64 word \<times> 16 word) \<times> 'a Gen_scheme" where
  "getClockSequence g useUnixTSMs atTime =
     (case seedClockSequence g of
        (Some e, g1) \<Rightarrow> (Inl e, g1)
      | (None, g1) \<Rightarrow>
          let timeNow = timestampOf useUnixTSMs atTime;
              g2 = (if timeNow \<le> lastTime g1
                    then g1\<lparr>clockSequence := clockSequence g1 + 1\<rparr> else g1);
              g3 = g2\<lparr>lastTime := timeNow\<rparr>
          in (Inr (timeNow, clockSequence g3), g3))"

definition getMonotonicClockSequence ::
  "MonotonicGen \<Rightarrow> bool \<Rightarrow> Time \<Rightarrow> (error + 64 word \<times> 16 word) \<times> MonotonicGen" where
  "getMonotonicClockSequence g useUnixTSMs atTime =
     (let timeNow = timestampOf useUnixTSMs atTime;
          g1 = (if timeNow \<le> lastTime g
                then g\<lparr>monotonicCounter := monotonicCounter g + 1\<rparr>
                else g\<lparr>monotonicCounter := 0\<rparr>);
          g2 = g1\<lparr>lastTime := timeNow\<rparr>
      in (Inr (timeNow, monotonicCounter g2), g2))"

text \<open>\<^verbatim>\<open>g.hardwareAddrOnce.Do(...)\<close>. The error of the hardware-address function is
  overwritten by the outcome of the random read.\<close>

definition resolveHardwareAddr :: "'a Gen_scheme \<Rightarrow> error option \<times> 'a Gen_scheme" where
  "resolveHardwareAddr g =
     (if hardwareAddrOnce g then (None, g)
      else (case hwAddrFunc g () of
              Inr hwAddr \<Rightarrow>
                (None, g\<lparr>hardwareAddrOnce := True,
                          hardwareAddr := copy_bytes (hardwareAddr g) hwAddr\<rparr>)
            | Inl _ \<Rightarrow>
                (case ReadFull (rand g) (hardwareAddr g) of
                   (Some e, buf, r') \<Rightarrow>
                     (Some e, g\<lparr>hardwareAddrOnce := True, rand := r', hardwareAddr := buf\<rparr>)
                 | (None, buf, r') \<Rightarrow>
                     (None, g\<lparr>hardwareAddrOnce := True, rand := r',
                               hardwareAddr := buf[0 := buf ! 0 OR 0x01]\<rparr>))))"

definition getHardwareAddr :: "'a Gen_scheme \<Rightarrow> (error + byte list) \<times> 'a Gen_scheme" where
  "getHardwareAddr g =
     (case resolveHardwareAddr g of
        (Some e, g1) \<Rightarrow> (Inl e, g1)
      | (None, g1) \<Rightarrow> (Inr (hardwareAddr g1), g1))"

text \<open>A call of \<^verbatim>\<open>g.epochFunc()\<close>.\<close>

definition callEpoch :: "'a Gen_scheme \<Rightarrow> Time \<times> 'a Gen_scheme" where
  "callEpoch g = (shd (epochFunc g), g\<lparr>epochFunc := stl (epochFunc g)\<rparr>)"

section \<open>The version encoders\<close>

definition NewV1AtTime :: "'a Gen_scheme \<Rightarrow> Time \<Rightarrow> (error + UUID) \<times> 'a Gen_scheme" where
  "NewV1AtTime g atTime =
     (case getClockSequence g False atTime of
        (Inl e, g1) \<Rightarrow> (Inl e, g1)
      | (Inr (timeNow, clockSeq), g1) \<Rightarrow>
          let u0 = replicate 16 0;
              u1 = PutUint32 u0 0 (ucast timeNow);
              u2 = PutUint16 u1 4 (ucast (drop_bit 32 timeNow));
              u3 = PutUint16 u2 6 (ucast (drop_bit 48 timeNow));
              u4 = PutUint16 u3 8 clockSeq
          in (case getHardwareAddr g1 of
                (Inl e, g2) \<Rightarrow> (Inl e, g2)
              | (Inr hwAddr, g2) \<Rightarrow>
                  let u5 = take 10 u4 @ copy_bytes (drop 10 u4) hwAddr
                  in (Inr (SetVariant (SetVersion 1 u5)), g2)))"

definition NewV1 :: "'a Gen_scheme \<Rightarrow> (error + UUID) \<times> 'a Gen_scheme" where
  "NewV1 g = (case callEpoch g of (t, g') \<Rightarrow> NewV1AtTime g' t)"

text \<open>
  A \<^verbatim>\<open>hash.Hash\<close> (\<^verbatim>\<open>md5.New()\<close>, \<^verbatim>\<open>sha1.New()\<close>: Go's standard library) is the function
  from the bytes written to the digest \<^verbatim>\<open>Sum(nil)\<close> returns; the encoders take it as a
  parameter. A Go string is its bytes.
\<close>

type_synonym Hash = "byte list \<Rightarrow> byte list"

definition bytes_of :: "string \<Rightarrow> byte list" where
  "bytes_of name = map of_char name"

definition newFromHash :: "Hash \<Rightarrow> UUID \<Rightarrow> string \<Rightarrow> UUID" where
  "newFromHash h ns name = copy_bytes (replicate 16 0) (h (ns @ bytes_of name))"

definition NewV3 :: "Hash \<Rightarrow> 'a Gen_scheme \<Rightarrow> UUID \<Rightarrow> string \<Rightarrow> UUID" where
  "NewV3 md5 g ns name = SetVariant (SetVersion 3 (newFromHash md5 ns name))"

definition NewV5 :: "Hash \<Rightarrow> 'a Gen_scheme \<Rightarrow> UUID \<Rightarrow> string \<Rightarrow> UUID" where
  "NewV5 sha1 g ns name = SetVariant (SetVersion 5 (newFromHash sha1 ns name))"

definition NewV4 :: "'a Gen_scheme \<Rightarrow> (error + UUID) \<times> 'a Gen_scheme" where
  "NewV4 g =
     (case ReadFull (rand g) (replicate 16 0) of
        (Some e, u, r') \<Rightarrow> (Inl e, g\<lparr>rand := r'\<rparr>)
      | (None, u, r') \<Rightarrow> (Inr (SetVariant (SetVersion 4 u)), g\<lparr>rand := r'\<rparr>))"

definition NewV6AtTime :: "'a Gen_scheme \<Rightarrow> Time \<Rightarrow> (error + UUID) \<times> 'a Gen_scheme" where
  "NewV6AtTime g atTime =
     (case getClockSequence g False atTime of
        (Inl e, g1) \<Rightarrow> (Inl e, g1)
      | (Inr (timeNow, _), g1) \<Rightarrow>
          let u0 = replicate 16 0;
              u1 = PutUint32 u0 0 (ucast (drop_bit 28 timeNow));
              u2 = PutUint16 u1 4 (ucast (drop_bit 12 timeNow));
              u3 = PutUint16 u2 6 (ucast (timeNow AND 0xfff))
          in (case ReadFull (rand g1) (drop 8 u3) of
                (Some e, buf, r') \<Rightarrow> (Inl e, g1\<lparr>rand := r'\<rparr>)
              | (None, buf, r') \<Rightarrow>
                  (Inr (SetVariant (SetVersion 6 (take 8 u3 @ buf))), g1\<lparr>rand := r'\<rparr>)))"

definition NewV6 :: "'a Gen_scheme \<Rightarrow> (error + UUID) \<times> 'a Gen_scheme" where
  "NewV6 g = (case callEpoch g of (t, g') \<Rightarrow> NewV6AtTime g' t)"

text \<open>The six timestamp bytes and the two sequence bytes of a version-7 identifier, as
  \<^verbatim>\<open>NewV7AtTime\<close> and \<^verbatim>\<open>newMonotonicV7\<close> both write them, version set.\<close>

definition v7_head :: "64 word \<Rightarrow> 16 word \<Rightarrow> UUID" where
  "v7_head ms clockSeq =
     (let u0 = replicate 16 0;
          u1 = u0[0 := ucast (drop_bit 40 ms), 1 := ucast (drop_bit 32 ms),
                  2 := ucast (drop_bit 24 ms), 3 := ucast (drop_bit 16 ms),
                  4 := ucast (drop_bit 8 ms), 5 := ucast ms];
          u2 = PutUint16 u1 6 clockSeq
      in SetVersion 7 u2)"

definition NewV7AtTime :: "'a Gen_scheme \<Rightarrow> Time \<Rightarrow> (error + UUID) \<times> 'a Gen_scheme" where
  "NewV7AtTime g atTime =
     (case getClockSequence g True atTime of
        (Inl e, g1) \<Rightarrow> (Inl e, g1)
      | (Inr (ms, clockSeq), g1) \<Rightarrow>
          let u = v7_head ms clockSeq
          in (case ReadFull (rand g1) (drop 8 u) of
                (Some e, buf, r') \<Rightarrow> (Inl e, g1\<lparr>rand := r'\<rparr>)
              | (None, buf, r') \<Rightarrow> (Inr (SetVariant (take 8 u @ buf)), g1\<lparr>rand := r'\<rparr>)))"

definition NewV7 :: "'a Gen_scheme \<Rightarrow> (error + UUID) \<times> 'a Gen_scheme" where
  "NewV7 g = (case callEpoch g of (t, g') \<Rightarrow> NewV7AtTime g' t)"

section \<open>Batch issuance\<close>

definition newMonotonicV7 :: "MonotonicGen \<Rightarrow> (error + UUID) \<times> MonotonicGen" where
  "newMonotonicV7 g =
     (case callEpoch g of (t, g0) \<Rightarrow>
        (case getMonotonicClockSequence g0 True t of
           (Inl e, g1) \<Rightarrow> (Inl e, g1)
         | (Inr (ms, clockSeq), g1) \<Rightarrow>
             let u = v7_head ms clockSeq
             in (case ReadFull (rand g1) (drop 8 u) of
                   (Some e, buf, r') \<Rightarrow> (Inl e, g1\<lparr>rand := r'\<rparr>)
                 | (None, buf, r') \<Rightarrow> (Inr (SetVariant (take 8 u @ buf)), g1\<lparr>rand := r'\<rparr>))))"

text \<open>The loop \<^verbatim>\<open>for i := 0; i < batchSize; i++\<close> of \<^verbatim>\<open>GenerateBatchV7\<close>, from index \<open>i\<close>.\<close>

function batchLoop ::
  "nat \<Rightarrow> nat \<Rightarrow> MonotonicGen \<Rightarrow> UUID list \<Rightarrow> (error + UUID list) \<times> MonotonicGen" where
  "batchLoop i batchSize g uuids =
     (if i < batchSize then
        (case newMonotonicV7 g of
           (Inl e, g') \<Rightarrow> (Inl e, g')
         | (Inr uuid, g') \<Rightarrow> batchLoop (i + 1) batchSize g' (uuids[i := uuid]))
      else (Inr uuids, g))"
  by pat_completeness auto
termination
  by (relation "measure (\<lambda>(i, batchSize, g, uuids). batchSize - i)") auto

declare batchLoop.simps [simp del]

definition GenerateBatchV7 :: "MonotonicGen \<Rightarrow> int \<Rightarrow> (error + UUID list) \<times> MonotonicGen" where
  "GenerateBatchV7 g batchSize =
     (if batchSize \<le> 0 then (Inl BatchSizeError, g)
      else batchLoop 0 (nat batchSize) g (replicate (nat batchSize) Nil_UUID))"

text \<open>Successive calls of \<^verbatim>\<open>getClockSequence\<close> on one generator, with the result of each.\<close>

fun getClockSequence_calls ::
  "'a Gen_scheme \<Rightarrow> (bool \<times> Time) list \<Rightarrow> (error + 64 word \<times> 16 word) list \<times> 'a Gen_scheme" where
  "getClockSequence_calls g [] = ([], g)"
| "getClockSequence_calls g ((useUnixTSMs, atTime) # calls) =
     (case getClockSequence g useUnixTSMs atTime of (r, g') \<Rightarrow>
        (case getClockSequence_calls g' calls of (rs, g'') \<Rightarrow> (r # rs, g'')))"

section \<open>Basic facts about the collaborators and the one-time seeding\<close>

lemma ReadFull_zeroReader:
  "ReadFull zeroReader buf = (None, replicate (length buf) 0, zeroReader)"
  by (simp add: ReadFull_def)

lemma ReadFull_shortReader:
  "ReadFull (shortReader k b) buf =
     (if min (length buf) k < length buf then Some RandError else None,
      replicate (min (length buf) k) b @ drop (min (length buf) k) buf,
      shortReader k b)"
  by (simp add: ReadFull_def Let_def)

lemma seedClockSequence_lastTime: "lastTime (snd (seedClockSequence g)) = lastTime g"
  by (simp add: seedClockSequence_def split: prod.splits option.splits)

lemma seedClockSequence_done: "clockSequenceOnce g \<Longrightarrow> seedClockSequence g = (None, g)"
  by (simp add: seedClockSequence_def)

lemma seedClockSequence_sets_flag: "clockSequenceOnce (snd (seedClockSequence g))"
  by (simp add: seedClockSequence_def split: prod.splits option.splits)

lemma ReadFull_length: "length (fst (snd (ReadFull r buf))) = length buf"
  by (simp add: ReadFull_def split: prod.splits)

lemma ReadFull_None_delivered:
  "ReadFull r buf = (None, out, r') \<Longrightarrow> out = take (length buf) (fst (deliver r (length buf)))"
  by (auto simp add: ReadFull_def Let_def split: prod.splits if_splits)

lemma resolveHardwareAddr_done: "hardwareAddrOnce g \<Longrightarrow> resolveHardwareAddr g = (None, g)"
  by (simp add: resolveHardwareAddr_def)

lemma getHardwareAddr_done: "hardwareAddrOnce g \<Longrightarrow> getHardwareAddr g = (Inr (hardwareAddr g), g)"
  by (simp add: getHardwareAddr_def resolveHardwareAddr_done)

lemma getClockSequence_seeded:
  "clockSequenceOnce g \<Longrightarrow>
   getClockSequence g b t =
     (Inr (timestampOf b t,
           if timestampOf b t \<le> lastTime g then clockSequence g + 1 else clockSequence g),
      g\<lparr>clockSequence :=
          (if timestampOf b t \<le> lastTime g then clockSequence g + 1 else clockSequence g),
        lastTime := timestampOf b t\<rparr>)"
  by (simp add: getClockSequence_def seedClockSequence_done Let_def)

lemma getClockSequence_calls_seeded:
  "clockSequenceOnce g \<Longrightarrow> list_all (\<lambda>r. \<not> isl r) (fst (getClockSequence_calls g calls))"
proof (induction calls arbitrary: g)
  case Nil
  then show ?case by simp
next
  case (Cons c calls)
  obtain b t where c: "c = (b, t)" by (cases c)
  obtain r g' where call: "getClockSequence g b t = (r, g')"
    by (cases "getClockSequence g b t")
  have r: "\<not> isl r" and flag: "clockSequenceOnce g'"
    using Cons.prems call by (auto simp add: getClockSequence_seeded)
  from Cons.IH [OF flag] r show ?case
    by (cases "getClockSequence_calls g' calls") (simp add: c call)
qed

section \<open>Version 4 with an all-zero random source\<close>

text \<open>
  Claim C9. When the random source returns only zero bytes, \<^verbatim>\<open>NewV4\<close> succeeds and
  returns 00000000-0000-4000-8000-000000000000: every byte zero except byte 6, which
  is 0x40, and byte 8, which is 0x80. Whatever else the generator's state holds.
\<close>

theorem NewV4_zero_random:
  "NewV4 (g\<lparr>rand := zeroReader\<rparr>) =
     (Inr [0, 0, 0, 0, 0, 0, 0x40, 0, 0x80, 0, 0, 0, 0, 0, 0, 0], g\<lparr>rand := zeroReader\<rparr>)"
  by (simp add: NewV4_def ReadFull_zeroReader SetVersion_def SetVariant_def numeral_eq_Suc)

section \<open>Batch-size validation\<close>

text \<open>
  Claim C7. For every \<open>batchSize \<le> 0\<close>, \<^verbatim>\<open>GenerateBatchV7\<close> returns the batch-size
  error and no identifiers, and the generator (its monotonic counter, its last
  timestamp, its random source and clock) is the one it was called on.
\<close>

theorem GenerateBatchV7_invalid_size:
  "batchSize \<le> 0 \<Longrightarrow> GenerateBatchV7 g batchSize = (Inl BatchSizeError, g)"
  by (simp add: GenerateBatchV7_def)

theorem GenerateBatchV7_invalid_size_witness:
  "(0::int) \<le> 0 \<and> (-5::int) \<le> 0 \<and>
   GenerateBatchV7 (NewMonotonicGen (\<lambda>_. Inl HWAddrError) (sconst (Time 1 0)) zeroReader) 0 =
     (Inl BatchSizeError,
      NewMonotonicGen (\<lambda>_. Inl HWAddrError) (sconst (Time 1 0)) zeroReader) \<and>
   GenerateBatchV7 (NewMonotonicGen (\<lambda>_. Inl HWAddrError) (sconst (Time 1 0)) zeroReader) (-5) =
     (Inl BatchSizeError,
      NewMonotonicGen (\<lambda>_. Inl HWAddrError) (sconst (Time 1 0)) zeroReader)"
  using
    GenerateBatchV7_invalid_size
      [of 0 "NewMonotonicGen (\<lambda>_. Inl HWAddrError) (sconst (Time 1 0)) zeroReader"]
    GenerateBatchV7_invalid_size
      [of "-5" "NewMonotonicGen (\<lambda>_. Inl HWAddrError) (sconst (Time 1 0)) zeroReader"]
  by simp

section \<open>The monotonic counter\<close>

text \<open>
  Claim C4. Every call of \<^verbatim>\<open>getMonotonicClockSequence\<close> succeeds and returns the computed
  timestamp with the new counter: 0 when the timestamp is greater than the stored
  \<open>lastTime\<close>, the old counter plus one (modulo \<open>2^16\<close>) when it is less or equal. The
  stored \<open>lastTime\<close> becomes the timestamp in both cases. The random source plays no
  part: the result is the same under any source, and the source is left as it was.
\<close>

theorem getMonotonicClockSequence_rule:
  "getMonotonicClockSequence g useUnixTSMs atTime =
     (Inr (timestampOf useUnixTSMs atTime,
           if lastTime g < timestampOf useUnixTSMs atTime then 0 else monotonicCounter g + 1),
      g\<lparr>lastTime := timestampOf useUnixTSMs atTime,
        monotonicCounter :=
          (if lastTime g < timestampOf useUnixTSMs atTime then 0 else monotonicCounter g + 1)\<rparr>)
   \<and> unat (monotonicCounter g + 1) = (unat (monotonicCounter g) + 1) mod 2 ^ 16
   \<and> getMonotonicClockSequence (g\<lparr>rand := r\<rparr>) useUnixTSMs atTime =
       (fst (getMonotonicClockSequence g useUnixTSMs atTime),
        (snd (getMonotonicClockSequence g useUnixTSMs atTime))\<lparr>rand := r\<rparr>)"
  by (auto simp add: getMonotonicClockSequence_def Let_def unat_word_ariths)

section \<open>The clock-sequence tracker\<close>

text \<open>
  Claim C3. For every successful call of \<^verbatim>\<open>getClockSequence\<close>: the timestamp returned is
  the computed one and is stored as \<open>lastTime\<close>; the sequence returned is the stored
  \<open>clockSequence\<close>, which is the value the one-time seeding left (the value before
  the call once the generator is seeded, the two random bytes on the first call)
  plus one modulo \<open>2^16\<close> when the timestamp is at most the old \<open>lastTime\<close>, and that
  value unchanged otherwise. A second call with the same instant and the same mode
  then returns the sequence of the first plus one modulo \<open>2^16\<close>.
\<close>

theorem getClockSequence_rule:
  assumes "getClockSequence g useUnixTSMs atTime = (Inr (ts, cs), g')"
  shows "ts = timestampOf useUnixTSMs atTime \<and>
         lastTime g' = ts \<and>
         cs = clockSequence g' \<and>
         clockSequence g' =
           (if ts \<le> lastTime g then clockSequence (snd (seedClockSequence g)) + 1
            else clockSequence (snd (seedClockSequence g))) \<and>
         unat (clockSequence (snd (seedClockSequence g)) + 1) =
           (unat (clockSequence (snd (seedClockSequence g))) + 1) mod 2 ^ 16 \<and>
         (if clockSequenceOnce g
          then clockSequence (snd (seedClockSequence g)) = clockSequence g
          else clockSequence (snd (seedClockSequence g)) =
                 Uint16 (fst (snd (ReadFull (rand g) (replicate 2 0))))) \<and>
         fst (getClockSequence g' useUnixTSMs atTime) = Inr (ts, cs + 1) \<and>
         unat (cs + 1) = (unat cs + 1) mod 2 ^ 16"
proof -
  obtain eo g1 where s: "seedClockSequence g = (eo, g1)"
    by (cases "seedClockSequence g")
  from assms s have eo: "eo = None"
    by (cases eo) (simp_all add: getClockSequence_def)
  have lt: "lastTime g1 = lastTime g"
    using seedClockSequence_lastTime [of g] s by simp
  have once1: "clockSequenceOnce g1"
    using seedClockSequence_sets_flag [of g] s by simp
  from assms s eo lt have ts: "ts = timestampOf useUnixTSMs atTime"
    and g': "g' = (if ts \<le> lastTime g then g1\<lparr>clockSequence := clockSequence g1 + 1\<rparr>
                   else g1)\<lparr>lastTime := ts\<rparr>"
    and cs: "cs = clockSequence g'"
    by (auto simp add: getClockSequence_def Let_def)
  have once': "clockSequenceOnce g'"
    using g' once1 by simp
  have seeded: "if clockSequenceOnce g then clockSequence g1 = clockSequence g
     else clockSequence g1 = Uint16 (fst (snd (ReadFull (rand g) (replicate 2 0))))"
    using s eo
    by (auto simp add: seedClockSequence_def split: prod.splits option.splits if_splits)
  have again: "fst (getClockSequence g' useUnixTSMs atTime) = Inr (ts, cs + 1)"
    using once' ts cs g' by (simp add: getClockSequence_def seedClockSequence_done Let_def)
  show ?thesis
    using ts g' cs seeded again s by (simp add: unat_word_ariths)
qed

theorem getClockSequence_rule_witness:
  "getClockSequence
     ((NewGenWithOptions (\<lambda>_. Inl HWAddrError) (sconst (Time 1 0)) zeroReader)
        \<lparr>clockSequenceOnce := True, lastTime := 1000, clockSequence := 0xFFFF\<rparr>)
     True (Time 1 0) =
     (Inr (1000, 0),
      (NewGenWithOptions (\<lambda>_. Inl HWAddrError) (sconst (Time 1 0)) zeroReader)
        \<lparr>clockSequenceOnce := True, lastTime := 1000, clockSequence := 0\<rparr>) \<and>
   fst (getClockSequence
      ((NewGenWithOptions (\<lambda>_. Inl HWAddrError) (sconst (Time 1 0)) zeroReader)
        \<lparr>clockSequenceOnce := True, lastTime := 1000, clockSequence := 0\<rparr>)
      True (Time 1 0)) = Inr (1000, 1)"
proof -
  have call: "getClockSequence
     ((NewGenWithOptions (\<lambda>_. Inl HWAddrError) (sconst (Time 1 0)) zeroReader)
        \<lparr>clockSequenceOnce := True, lastTime := 1000, clockSequence := 0xFFFF\<rparr>)
     True (Time 1 0) =
     (Inr (1000, 0),
      (NewGenWithOptions (\<lambda>_. Inl HWAddrError) (sconst (Time 1 0)) zeroReader)
        \<lparr>clockSequenceOnce := True, lastTime := 1000, clockSequence := 0\<rparr>)"
    by (simp add: getClockSequence_def seedClockSequence_def timestampOf_def UnixMilli_def
        NewGenWithOptions_def Let_def)
  from getClockSequence_rule [OF call] call show ?thesis by simp
qed

section \<open>The hardware address\<close>

text \<open>
  Claim C5. On the first resolution (the once flag not set), when the hardware-address
  function fails and the read of 6 random bytes succeeds, \<^verbatim>\<open>getHardwareAddr\<close> returns
  those 6 bytes with the least-significant bit of byte 0 set, and stores them as the
  cached address. From then on every resolution, on any later state of the generator
  that still holds the flag and the cached bytes, returns the cached bytes and changes
  nothing, whatever the hardware-address function would return now.
\<close>

theorem getHardwareAddr_fallback_cached:
  assumes "\<not> hardwareAddrOnce g"
    and "hwAddrFunc g () = Inl e"
    and "ReadFull (rand g) (hardwareAddr g) = (None, buf, r')"
    and "length (hardwareAddr g) = 6"
  shows "getHardwareAddr g =
           (Inr (buf[0 := buf ! 0 OR 1]),
            g\<lparr>hardwareAddrOnce := True, rand := r', hardwareAddr := buf[0 := buf ! 0 OR 1]\<rparr>) \<and>
         buf = take 6 (fst (deliver (rand g) 6)) \<and>
         length (buf[0 := buf ! 0 OR 1]) = 6 \<and>
         bit (buf[0 := buf ! 0 OR 1] ! 0) 0 \<and>
         (\<forall>g2 :: 'b Gen_scheme.
            hardwareAddrOnce g2 \<and> hardwareAddr g2 = buf[0 := buf ! 0 OR 1] \<longrightarrow>
            getHardwareAddr g2 = (Inr (buf[0 := buf ! 0 OR 1]), g2)) \<and>
         (\<forall>hw. getHardwareAddr (snd (getHardwareAddr g)\<lparr>hwAddrFunc := hw\<rparr>) =
            (Inr (buf[0 := buf ! 0 OR 1]), snd (getHardwareAddr g)\<lparr>hwAddrFunc := hw\<rparr>))"
proof -
  have len: "length buf = 6"
    using ReadFull_length [of "rand g" "hardwareAddr g"] assms(3,4) by simp
  have call: "getHardwareAddr g =
           (Inr (buf[0 := buf ! 0 OR 1]),
            g\<lparr>hardwareAddrOnce := True, rand := r', hardwareAddr := buf[0 := buf ! 0 OR 1]\<rparr>)"
    using assms(1-3) by (simp add: getHardwareAddr_def resolveHardwareAddr_def)
  have deliv: "buf = take 6 (fst (deliver (rand g) 6))"
    using ReadFull_None_delivered [OF assms(3)] assms(4) by simp
  have lsb: "bit (buf[0 := buf ! 0 OR 1] ! 0) 0"
    using len by (simp add: bit_or_iff)
  have later: "getHardwareAddr g2 = (Inr (buf[0 := buf ! 0 OR 1]), g2)"
    if "hardwareAddrOnce g2 \<and> hardwareAddr g2 = buf[0 := buf ! 0 OR 1]" for g2 :: "'b Gen_scheme"
    using that getHardwareAddr_done [of g2] by simp
  have swapped: "getHardwareAddr (snd (getHardwareAddr g)\<lparr>hwAddrFunc := hw\<rparr>) =
            (Inr (buf[0 := buf ! 0 OR 1]), snd (getHardwareAddr g)\<lparr>hwAddrFunc := hw\<rparr>)" for hw
    by (simp add: call getHardwareAddr_done)
  show ?thesis
    using call deliv len lsb later swapped by simp
qed

theorem getHardwareAddr_fallback_cached_witness:
  "\<not> hardwareAddrOnce (NewGenWithOptions (\<lambda>_. Inl HWAddrError) (sconst (Time 1 0)) (shortReader 6 0xAA)) \<and>
   hwAddrFunc (NewGenWithOptions (\<lambda>_. Inl HWAddrError) (sconst (Time 1 0)) (shortReader 6 0xAA)) () =
     Inl HWAddrError \<and>
   ReadFull (rand (NewGenWithOptions (\<lambda>_. Inl HWAddrError) (sconst (Time 1 0)) (shortReader 6 0xAA)))
     (hardwareAddr (NewGenWithOptions (\<lambda>_. Inl HWAddrError) (sconst (Time 1 0)) (shortReader 6 0xAA))) =
     (None, [0xAA, 0xAA, 0xAA, 0xAA, 0xAA, 0xAA], shortReader 6 0xAA) \<and>
   length (hardwareAddr (NewGenWithOptions (\<lambda>_. Inl HWAddrError) (sconst (Time 1 0)) (shortReader 6 0xAA))) = 6 \<and>
   getHardwareAddr (NewGenWithOptions (\<lambda>_. Inl HWAddrError) (sconst (Time 1 0)) (shortReader 6 0xAA)) =
     (Inr [0xAB, 0xAA, 0xAA, 0xAA, 0xAA, 0xAA],
      (NewGenWithOptions (\<lambda>_. Inl HWAddrError) (sconst (Time 1 0)) (shortReader 6 0xAA))
        \<lparr>hardwareAddrOnce := True, rand := shortReader 6 0xAA,
          hardwareAddr := [0xAB, 0xAA, 0xAA, 0xAA, 0xAA, 0xAA]\<rparr>) \<and>
   getHardwareAddr
     ((NewGenWithOptions (\<lambda>_. Inl HWAddrError) (sconst (Time 1 0)) (shortReader 6 0xAA))
        \<lparr>hardwareAddrOnce := True, rand := shortReader 6 0xAA,
          hardwareAddr := [0xAB, 0xAA, 0xAA, 0xAA, 0xAA, 0xAA],
          hwAddrFunc := \<lambda>_. Inr [1, 2, 3, 4, 5, 6]\<rparr>) =
     (Inr [0xAB, 0xAA, 0xAA, 0xAA, 0xAA, 0xAA],
      (NewGenWithOptions (\<lambda>_. Inl HWAddrError) (sconst (Time 1 0)) (shortReader 6 0xAA))
        \<lparr>hardwareAddrOnce := True, rand := shortReader 6 0xAA,
          hardwareAddr := [0xAB, 0xAA, 0xAA, 0xAA, 0xAA, 0xAA],
          hwAddrFunc := \<lambda>_. Inr [1, 2, 3, 4, 5, 6]\<rparr>)"
proof -
  let ?g = "NewGenWithOptions (\<lambda>_. Inl HWAddrError) (sconst (Time 1 0)) (shortReader 6 0xAA)"
  let ?g2 = "?g\<lparr>hardwareAddrOnce := True, rand := shortReader 6 0xAA,
          hardwareAddr := [0xAB, 0xAA, 0xAA, 0xAA, 0xAA, 0xAA],
          hwAddrFunc := \<lambda>_. Inr [1, 2, 3, 4, 5, 6]\<rparr>"
  have h1: "\<not> hardwareAddrOnce ?g" by (simp add: NewGenWithOptions_def)
  have h2: "hwAddrFunc ?g () = Inl HWAddrError" by (simp add: NewGenWithOptions_def)
  have h3: "ReadFull (rand ?g) (hardwareAddr ?g) =
     (None, [0xAA, 0xAA, 0xAA, 0xAA, 0xAA, 0xAA], shortReader 6 0xAA)"
    by (simp add: NewGenWithOptions_def ReadFull_shortReader numeral_eq_Suc)
  have h4: "length (hardwareAddr ?g) = 6" by (simp add: NewGenWithOptions_def)
  note r = getHardwareAddr_fallback_cached [where ?'b = unit, OF h1 h2 h3 h4]
  from r have call: "getHardwareAddr ?g =
     (Inr [0xAB, 0xAA, 0xAA, 0xAA, 0xAA, 0xAA],
      ?g\<lparr>hardwareAddrOnce := True, rand := shortReader 6 0xAA,
          hardwareAddr := [0xAB, 0xAA, 0xAA, 0xAA, 0xAA, 0xAA]\<rparr>)"
    by simp
  from r have "\<forall>g2 :: Gen. hardwareAddrOnce g2 \<and> hardwareAddr g2 = [0xAB, 0xAA, 0xAA, 0xAA, 0xAA, 0xAA] \<longrightarrow>
            getHardwareAddr g2 = (Inr [0xAB, 0xAA, 0xAA, 0xAA, 0xAA, 0xAA], g2)"
    by simp
  then have later: "getHardwareAddr ?g2 = (Inr [0xAB, 0xAA, 0xAA, 0xAA, 0xAA, 0xAA], ?g2)"
    by simp
  from h1 h2 h3 h4 call later show ?thesis
    by blast
qed

section \<open>Failed one-time initialisation\<close>

text \<open>
  Claim C10. When the random read of the first \<^verbatim>\<open>getClockSequence\<close> call on a fresh
  generator fails, the call returns the error, the once flag is set all the same and
  the clock sequence stays 0; every later call succeeds, and the first of them
  returns the sequence computed from 0. Likewise, when the hardware-address function
  fails and the random fallback fails too, \<^verbatim>\<open>getHardwareAddr\<close> returns the error, the
  flag is set, the cached address holds the bytes read before the failure (the rest
  as it was, no multicast bit set), and every later call returns that address with no
  error.
\<close>

theorem failed_seeding_not_retried:
  "(\<not> clockSequenceOnce g \<and> clockSequence g = 0 \<and>
      fst (ReadFull (rand g) (replicate 2 0)) = Some e \<longrightarrow>
      fst (getClockSequence g b t) = Inl e \<and>
      clockSequenceOnce (snd (getClockSequence g b t)) \<and>
      clockSequence (snd (getClockSequence g b t)) = 0 \<and>
      lastTime (snd (getClockSequence g b t)) = lastTime g \<and>
      (\<forall>calls. list_all (\<lambda>r. \<not> isl r)
          (fst (getClockSequence_calls (snd (getClockSequence g b t)) calls))) \<and>
      (\<forall>b' t'. fst (getClockSequence (snd (getClockSequence g b t)) b' t') =
          Inr (timestampOf b' t', if timestampOf b' t' \<le> lastTime g then 1 else 0))) \<and>
   (\<not> hardwareAddrOnce h \<and> hwAddrFunc h () = Inl e0 \<and>
      ReadFull (rand h) (hardwareAddr h) = (Some e', buf, r') \<longrightarrow>
      getHardwareAddr h =
        (Inl e', h\<lparr>hardwareAddrOnce := True, rand := r', hardwareAddr := buf\<rparr>) \<and>
      (\<exists>k < length (hardwareAddr h).
          buf = take k (fst (deliver (rand h) (length (hardwareAddr h)))) @
                drop k (hardwareAddr h)) \<and>
      (\<forall>hw r. getHardwareAddr
                 (snd (getHardwareAddr h)\<lparr>hwAddrFunc := hw, rand := r\<rparr>) =
          (Inr buf, snd (getHardwareAddr h)\<lparr>hwAddrFunc := hw, rand := r\<rparr>)))"
proof (intro conjI impI)
  assume a: "\<not> clockSequenceOnce g \<and> clockSequence g = 0 \<and>
      fst (ReadFull (rand g) (replicate 2 0)) = Some e"
  obtain buf2 r2 where rf: "ReadFull (rand g) (replicate 2 0) = (Some e, buf2, r2)"
    using a by (cases "ReadFull (rand g) (replicate 2 0)") auto
  have call: "getClockSequence g b t = (Inl e, g\<lparr>clockSequenceOnce := True, rand := r2\<rparr>)"
    using a rf by (simp add: getClockSequence_def seedClockSequence_def)
  show "fst (getClockSequence g b t) = Inl e" by (simp add: call)
  show "clockSequenceOnce (snd (getClockSequence g b t))" by (simp add: call)
  show "clockSequence (snd (getClockSequence g b t)) = 0" using a by (simp add: call)
  show "lastTime (snd (getClockSequence g b t)) = lastTime g" by (simp add: call)
  show "\<forall>calls. list_all (\<lambda>r. \<not> isl r)
          (fst (getClockSequence_calls (snd (getClockSequence g b t)) calls))"
    by (simp add: call getClockSequence_calls_seeded)
  show "\<forall>b' t'. fst (getClockSequence (snd (getClockSequence g b t)) b' t') =
          Inr (timestampOf b' t', if timestampOf b' t' \<le> lastTime g then 1 else 0)"
    using a by (simp add: call getClockSequence_seeded)
next
  assume a: "\<not> hardwareAddrOnce h \<and> hwAddrFunc h () = Inl e0 \<and>
      ReadFull (rand h) (hardwareAddr h) = (Some e', buf, r')"
  show call: "getHardwareAddr h =
        (Inl e', h\<lparr>hardwareAddrOnce := True, rand := r', hardwareAddr := buf\<rparr>)"
    using a by (simp add: getHardwareAddr_def resolveHardwareAddr_def)
  show "\<exists>k < length (hardwareAddr h).
          buf = take k (fst (deliver (rand h) (length (hardwareAddr h)))) @
                drop k (hardwareAddr h)"
  proof -
    let ?n = "length (hardwareAddr h)"
    let ?bs = "fst (deliver (rand h) ?n)"
    from a have short: "length (take ?n ?bs) < ?n"
      and buf: "buf = take ?n ?bs @ drop (length (take ?n ?bs)) (hardwareAddr h)"
      by (auto simp add: ReadFull_def Let_def split: prod.splits if_splits)
    from short have k: "length (take ?n ?bs) = length ?bs" "length ?bs < ?n"
      by auto
    have "buf = take (length ?bs) ?bs @ drop (length ?bs) (hardwareAddr h)"
      using buf k by simp
    with k(2) show ?thesis by blast
  qed
  show "\<forall>hw r. getHardwareAddr
                 (snd (getHardwareAddr h)\<lparr>hwAddrFunc := hw, rand := r\<rparr>) =
          (Inr buf, snd (getHardwareAddr h)\<lparr>hwAddrFunc := hw, rand := r\<rparr>)"
    by (simp add: call getHardwareAddr_done)
qed

theorem failed_seeding_not_retried_witness:
  "(\<not> clockSequenceOnce (NewGenWithOptions (\<lambda>_. Inl HWAddrError) (sconst (Time 1 0)) (shortReader 1 0xAA)) \<and>
    clockSequence (NewGenWithOptions (\<lambda>_. Inl HWAddrError) (sconst (Time 1 0)) (shortReader 1 0xAA)) = 0 \<and>
    fst (ReadFull (rand (NewGenWithOptions (\<lambda>_. Inl HWAddrError) (sconst (Time 1 0)) (shortReader 1 0xAA)))
           (replicate 2 0)) = Some RandError) \<and>
   (fst (getClockSequence
           (NewGenWithOptions (\<lambda>_. Inl HWAddrError) (sconst (Time 1 0)) (shortReader 1 0xAA))
           True (Time 1 0)) = Inl RandError \<and>
    clockSequenceOnce (snd (getClockSequence
           (NewGenWithOptions (\<lambda>_. Inl HWAddrError) (sconst (Time 1 0)) (shortReader 1 0xAA))
           True (Time 1 0))) \<and>
    clockSequence (snd (getClockSequence
           (NewGenWithOptions (\<lambda>_. Inl HWAddrError) (sconst (Time 1 0)) (shortReader 1 0xAA))
           True (Time 1 0))) = 0 \<and>
    list_all (\<lambda>r. \<not> isl r)
      (fst (getClockSequence_calls
         (snd (getClockSequence
           (NewGenWithOptions (\<lambda>_. Inl HWAddrError) (sconst (Time 1 0)) (shortReader 1 0xAA))
           True (Time 1 0)))
         [(True, Time 1 0), (True, Time 1 0), (False, Time 2 0)])) \<and>
    fst (getClockSequence
       (snd (getClockSequence
           (NewGenWithOptions (\<lambda>_. Inl HWAddrError) (sconst (Time 1 0)) (shortReader 1 0xAA))
           True (Time 1 0)))
       True (Time 1 0)) = Inr (1000, 0)) \<and>
   (\<not> hardwareAddrOnce (NewGenWithOptions (\<lambda>_. Inl HWAddrError) (sconst (Time 1 0)) (shortReader 1 0xAA)) \<and>
    hwAddrFunc (NewGenWithOptions (\<lambda>_. Inl HWAddrError) (sconst (Time 1 0)) (shortReader 1 0xAA)) () =
      Inl HWAddrError \<and>
    ReadFull (rand (NewGenWithOptions (\<lambda>_. Inl HWAddrError) (sconst (Time 1 0)) (shortReader 1 0xAA)))
      (hardwareAddr (NewGenWithOptions (\<lambda>_. Inl HWAddrError) (sconst (Time 1 0)) (shortReader 1 0xAA))) =
      (Some RandError, [0xAA, 0, 0, 0, 0, 0], shortReader 1 0xAA)) \<and>
   (getHardwareAddr (NewGenWithOptions (\<lambda>_. Inl HWAddrError) (sconst (Time 1 0)) (shortReader 1 0xAA)) =
      (Inl RandError,
       (NewGenWithOptions (\<lambda>_. Inl HWAddrError) (sconst (Time 1 0)) (shortReader 1 0xAA))
         \<lparr>hardwareAddrOnce := True, rand := shortReader 1 0xAA,
           hardwareAddr := [0xAA, 0, 0, 0, 0, 0]\<rparr>) \<and>
    fst (getHardwareAddr
      (snd (getHardwareAddr
              (NewGenWithOptions (\<lambda>_. Inl HWAddrError) (sconst (Time 1 0)) (shortReader 1 0xAA)))
         \<lparr>hwAddrFunc := \<lambda>_. Inr [1, 2, 3, 4, 5, 6], rand := zeroReader\<rparr>)) =
      Inr [0xAA, 0, 0, 0, 0, 0])"
proof -
  let ?g = "NewGenWithOptions (\<lambda>_. Inl HWAddrError) (sconst (Time 1 0)) (shortReader 1 0xAA)"
  have hA: "\<not> clockSequenceOnce ?g \<and> clockSequence ?g = 0 \<and>
    fst (ReadFull (rand ?g) (replicate 2 0)) = Some RandError"
    by (simp add: NewGenWithOptions_def ReadFull_shortReader)
  have hB: "\<not> hardwareAddrOnce ?g \<and> hwAddrFunc ?g () = Inl HWAddrError \<and>
    ReadFull (rand ?g) (hardwareAddr ?g) =
      (Some RandError, [0xAA, 0, 0, 0, 0, 0], shortReader 1 0xAA)"
    by (simp add: NewGenWithOptions_def ReadFull_shortReader numeral_eq_Suc)
  note r = failed_seeding_not_retried
    [where g = ?g and e = RandError and b = True and t = "Time 1 0" and h = ?g
       and ?e0.0 = HWAddrError and e' = RandError and buf = "[0xAA, 0, 0, 0, 0, 0]"
       and r' = "shortReader 1 0xAA"]
  from r hA have A: "fst (getClockSequence ?g True (Time 1 0)) = Inl RandError \<and>
      clockSequenceOnce (snd (getClockSequence ?g True (Time 1 0))) \<and>
      clockSequence (snd (getClockSequence ?g True (Time 1 0))) = 0 \<and>
      lastTime (snd (getClockSequence ?g True (Time 1 0))) = lastTime ?g \<and>
      (\<forall>calls. list_all (\<lambda>r. \<not> isl r)
          (fst (getClockSequence_calls (snd (getClockSequence ?g True (Time 1 0))) calls))) \<and>
      (\<forall>b' t'. fst (getClockSequence (snd (getClockSequence ?g True (Time 1 0))) b' t') =
          Inr (timestampOf b' t', if timestampOf b' t' \<le> lastTime ?g then 1 else 0))"
    by blast
  from r hB have B: "getHardwareAddr ?g =
        (Inl RandError, ?g\<lparr>hardwareAddrOnce := True, rand := shortReader 1 0xAA,
           hardwareAddr := [0xAA, 0, 0, 0, 0, 0]\<rparr>) \<and>
      (\<forall>hw r. getHardwareAddr
                 (snd (getHardwareAddr ?g)\<lparr>hwAddrFunc := hw, rand := r\<rparr>) =
          (Inr [0xAA, 0, 0, 0, 0, 0], snd (getHardwareAddr ?g)\<lparr>hwAddrFunc := hw, rand := r\<rparr>))"
    by blast
  have ms: "timestampOf True (Time 1 0) = 1000" "lastTime ?g = 0"
    by (simp_all add: timestampOf_def UnixMilli_def NewGenWithOptions_def)
  from A ms have A5: "fst (getClockSequence (snd (getClockSequence ?g True (Time 1 0))) True (Time 1 0))
      = Inr (1000, 0)"
    by simp
  from B [THEN conjunct2, rule_format, of zeroReader "\<lambda>_. Inr [1, 2, 3, 4, 5, 6]"]
  have B2: "fst (getHardwareAddr
      (snd (getHardwareAddr ?g)\<lparr>hwAddrFunc := \<lambda>_. Inr [1, 2, 3, 4, 5, 6], rand := zeroReader\<rparr>)) =
      Inr [0xAA, 0, 0, 0, 0, 0]"
    by simp
  from hA hB A A5 B B2 show ?thesis
    by blast
qed

section \<open>The monotonic state and the generator state\<close>












section \<open>The layout of version 6\<close>

lemma time_high_bytes:
  fixes t :: "64 word"
  shows "(ucast (drop_bit 24 (ucast (drop_bit 28 t) :: 32 word)) :: byte) = ucast (drop_bit 52 t)"
    and "(ucast (drop_bit 16 (ucast (drop_bit 28 t) :: 32 word)) :: byte) = ucast (drop_bit 44 t)"
    and "(ucast (drop_bit 8 (ucast (drop_bit 28 t) :: 32 word)) :: byte) = ucast (drop_bit 36 t)"
    and "(ucast (ucast (drop_bit 28 t) :: 32 word) :: byte) = ucast (drop_bit 28 t)"
  by (rule bit_word_eqI; auto simp add: bit_simps)+

lemma time_mid_bytes:
  fixes t :: "64 word"
  shows "(ucast (drop_bit 8 (ucast (drop_bit 12 t) :: 16 word)) :: byte) = ucast (drop_bit 20 t)"
    and "(ucast (ucast (drop_bit 12 t) :: 16 word) :: byte) = ucast (drop_bit 12 t)"
  by (rule bit_word_eqI; auto simp add: bit_simps)+

lemma mask_numerals:
  "(0xfff :: 64 word) = mask 12" "(0x0f :: byte) = mask 4" "(0x3f :: byte) = mask 6"
  by (simp_all add: mask_eq_exp_minus_1)

lemma time_low_bytes:
  fixes t :: "64 word"
  shows "((ucast (drop_bit 8 (ucast (t AND 0xfff) :: 16 word)) :: byte) AND 0x0f) OR push_bit 4 6
           = 0x60 OR (ucast (drop_bit 8 t) AND 0x0f)"
    and "(ucast (ucast (t AND 0xfff) :: 16 word) :: byte) = ucast t"
proof -
  have "(ucast (drop_bit 8 (ucast (t AND mask 12) :: 16 word)) :: byte) AND mask 4
          = ucast (drop_bit 8 t) AND mask 4"
    by (rule bit_word_eqI) (auto simp add: bit_simps)
  then show "((ucast (drop_bit 8 (ucast (t AND 0xfff) :: 16 word)) :: byte) AND 0x0f) OR push_bit 4 6
           = 0x60 OR (ucast (drop_bit 8 t) AND 0x0f)"
    by (simp add: mask_numerals or.commute)
  show "(ucast (ucast (t AND 0xfff) :: 16 word) :: byte) = ucast t"
    unfolding mask_numerals by (rule bit_word_eqI) (auto simp add: bit_simps)
qed

lemma NewV6AtTime_success:
  assumes "NewV6AtTime g atTime = (Inr u, g')"
  shows "\<exists>g1 rnd.
           seedClockSequence g = (None, g1) \<and>
           ReadFull (rand g1) (replicate 8 0) = (None, rnd, rand g') \<and>
           u = SetVariant (SetVersion 6
                 (take 8 (PutUint16 (PutUint16 (PutUint32 (replicate 16 0) 0
                     (ucast (drop_bit 28 (getEpoch atTime)))) 4
                     (ucast (drop_bit 12 (getEpoch atTime)))) 6
                     (ucast (getEpoch atTime AND 0xfff))) @ rnd))"
  using assms
  by (auto simp add: NewV6AtTime_def getClockSequence_def Let_def timestampOf_def
      PutUint16_def PutUint32_def
      split: prod.splits option.splits sum.splits if_splits)


lemma NewV6AtTime_ignores_clockSequence:
  "fst (NewV6AtTime (g\<lparr>clockSequence := c, lastTime := l\<rparr>) atTime) =
   fst (NewV6AtTime g atTime)"
  by (simp add: NewV6AtTime_def getClockSequence_def seedClockSequence_def Let_def
      split: prod.splits option.splits sum.splits)

lemma replicate_unfold:
  "replicate 2 x = [x, x]"
  "replicate 6 x = [x, x, x, x, x, x]"
  "replicate 8 x = [x, x, x, x, x, x, x, x]"
  "replicate 16 x = [x, x, x, x, x, x, x, x, x, x, x, x, x, x, x, x]"
  by (simp_all add: numeral_eq_Suc)

lemma getEpoch_1s: "getEpoch (Time 1 0) = 0x1b21dd21419d680"
  by (simp add: getEpoch_def UnixNano_def epochStart_def signed_divide_int_def)

lemma NewV6AtTime_bytes:
  assumes "NewV6AtTime g atTime = (Inr u, g')"
  shows "length u = 16 \<and>
         u ! 0 = ucast (drop_bit 52 (getEpoch atTime)) \<and>
         u ! 1 = ucast (drop_bit 44 (getEpoch atTime)) \<and>
         u ! 2 = ucast (drop_bit 36 (getEpoch atTime)) \<and>
         u ! 3 = ucast (drop_bit 28 (getEpoch atTime)) \<and>
         u ! 4 = ucast (drop_bit 20 (getEpoch atTime)) \<and>
         u ! 5 = ucast (drop_bit 12 (getEpoch atTime)) \<and>
         u ! 6 = 0x60 OR (ucast (drop_bit 8 (getEpoch atTime)) AND 0x0f) \<and>
         u ! 7 = ucast (getEpoch atTime) \<and>
         (\<exists>rnd. ReadFull (rand (snd (seedClockSequence g))) (replicate 8 0) =
                   (None, rnd, rand g') \<and>
                length rnd = 8 \<and>
                u ! 8 = (rnd ! 0 AND 0x3f) OR 0x80 \<and>
                drop 9 u = drop 1 rnd) \<and>
         (\<forall>c l. fst (NewV6AtTime (g\<lparr>clockSequence := c, lastTime := l\<rparr>) atTime) = Inr u)"
proof -
  let ?t = "getEpoch atTime"
  let ?u3 = "PutUint16 (PutUint16 (PutUint32 (replicate 16 0) 0 (ucast (drop_bit 28 ?t))) 4
               (ucast (drop_bit 12 ?t))) 6 (ucast (?t AND 0xfff))"
  from NewV6AtTime_success [OF assms] obtain g1 rnd where
    seed: "seedClockSequence g = (None, g1)" and
    rd: "ReadFull (rand g1) (replicate 8 0) = (None, rnd, rand g')" and
    u: "u = SetVariant (SetVersion 6 (take 8 ?u3 @ rnd))"
    by blast
  have len: "length rnd = 8"
    using ReadFull_length [of "rand g1" "replicate 8 0"] rd by simp
  have l16: "length u = 16"
    by (simp add: u SetVariant_def SetVersion_def PutUint16_def PutUint32_def len)
  have b0: "u ! 0 = ucast (drop_bit 52 ?t)"
    by (simp add: u SetVariant_def SetVersion_def PutUint16_def PutUint32_def len
        nth_append time_high_bytes numeral_2_eq_2 [symmetric] numeral_3_eq_3 [symmetric])
  have b1: "u ! 1 = ucast (drop_bit 44 ?t)"
    by (simp add: u SetVariant_def SetVersion_def PutUint16_def PutUint32_def len
        nth_append time_high_bytes numeral_2_eq_2 [symmetric] numeral_3_eq_3 [symmetric])
  have b2: "u ! 2 = ucast (drop_bit 36 ?t)"
    by (simp add: u SetVariant_def SetVersion_def PutUint16_def PutUint32_def len
        nth_append time_high_bytes numeral_2_eq_2 [symmetric] numeral_3_eq_3 [symmetric])
  have b3: "u ! 3 = ucast (drop_bit 28 ?t)"
    by (simp add: u SetVariant_def SetVersion_def PutUint16_def PutUint32_def len
        nth_append time_high_bytes numeral_2_eq_2 [symmetric] numeral_3_eq_3 [symmetric])
  have b4: "u ! 4 = ucast (drop_bit 20 ?t)"
    by (simp add: u SetVariant_def SetVersion_def PutUint16_def PutUint32_def len
        nth_append time_mid_bytes)
  have b5: "u ! 5 = ucast (drop_bit 12 ?t)"
    by (simp add: u SetVariant_def SetVersion_def PutUint16_def PutUint32_def len
        nth_append time_mid_bytes)
  have b6: "u ! 6 = 0x60 OR (ucast (drop_bit 8 ?t) AND 0x0f)"
    using time_low_bytes(1) [of ?t]
    by (simp add: u SetVariant_def SetVersion_def PutUint16_def PutUint32_def len
        nth_append)
  have b7: "u ! 7 = ucast ?t"
    by (simp add: u SetVariant_def SetVersion_def PutUint16_def PutUint32_def len
        nth_append time_low_bytes(2))
  have b8: "u ! 8 = (rnd ! 0 AND 0x3f) OR 0x80"
    by (simp add: u SetVariant_def SetVersion_def PutUint16_def PutUint32_def len
        nth_append)
  have tl: "drop 9 u = drop 1 rnd"
    by (simp add: u SetVariant_def SetVersion_def PutUint16_def PutUint32_def len
        drop_update_cancel)
  have rnd: "\<exists>rnd. ReadFull (rand (snd (seedClockSequence g))) (replicate 8 0) =
                   (None, rnd, rand g') \<and>
                length rnd = 8 \<and>
                u ! 8 = (rnd ! 0 AND 0x3f) OR 0x80 \<and>
                drop 9 u = drop 1 rnd"
    using seed rd len b8 tl by auto
  have indep: "\<forall>c l. fst (NewV6AtTime (g\<lparr>clockSequence := c, lastTime := l\<rparr>) atTime) = Inr u"
    by (simp add: NewV6AtTime_ignores_clockSequence assms)
  show ?thesis
    using l16 b0 b1 b2 b3 b4 b5 b6 b7 rnd indep by blast
qed

lemma NewV6_unfold:
  "NewV6 h = NewV6AtTime (h\<lparr>epochFunc := stl (epochFunc h)\<rparr>) (shd (epochFunc h))"
  by (simp add: NewV6_def callEpoch_def)

lemma seedClockSequence_epochFunc:
  "rand (snd (seedClockSequence (h\<lparr>epochFunc := e\<rparr>))) = rand (snd (seedClockSequence h))"
  by (simp add: seedClockSequence_def split: prod.splits option.splits)

lemma NewV6AtTime_epochFunc: "epochFunc (snd (NewV6AtTime g atTime)) = epochFunc g"
  by (simp add: NewV6AtTime_def getClockSequence_def seedClockSequence_def Let_def
      split: prod.splits option.splits sum.splits)

lemma epochFunc_update_last:
  "h\<lparr>clockSequence := c, lastTime := l, epochFunc := e\<rparr> =
   h\<lparr>epochFunc := e, clockSequence := c, lastTime := l\<rparr>"
  by (cases h) simp

text \<open>
  Claim C6. For every successful \<^verbatim>\<open>NewV6AtTime\<close> call at \<open>atTime\<close>, and every
  successful \<^verbatim>\<open>NewV6\<close> call, which takes \<open>atTime\<close> from the generator's clock, with
  \<open>t\<close> the 100-ns timestamp \<^verbatim>\<open>getEpoch atTime\<close>: the result has 16 bytes; bytes 0-3
  are bits 59-28 of \<open>t\<close>, most significant first; bytes 4-5 are bits 27-12; byte 6 is
  the version nibble 6 over bits 11-8 and byte 7 is bits 7-0; bytes 8-15 are the 8
  bytes read from the random source (after the one-time seeding), the top two bits of
  byte 8 replaced by \<open>10\<close>. The clock sequence is nowhere in the result: the same call
  on a generator with any other clock sequence and last timestamp returns the same
  identifier.
\<close>

theorem NewV6_layout:
  "(NewV6AtTime g atTime = (Inr u, g') \<longrightarrow>
      length u = 16 \<and>
      u ! 0 = ucast (drop_bit 52 (getEpoch atTime)) \<and>
      u ! 1 = ucast (drop_bit 44 (getEpoch atTime)) \<and>
      u ! 2 = ucast (drop_bit 36 (getEpoch atTime)) \<and>
      u ! 3 = ucast (drop_bit 28 (getEpoch atTime)) \<and>
      u ! 4 = ucast (drop_bit 20 (getEpoch atTime)) \<and>
      u ! 5 = ucast (drop_bit 12 (getEpoch atTime)) \<and>
      u ! 6 = 0x60 OR (ucast (drop_bit 8 (getEpoch atTime)) AND 0x0f) \<and>
      u ! 7 = ucast (getEpoch atTime) \<and>
      (\<exists>rnd. ReadFull (rand (snd (seedClockSequence g))) (replicate 8 0) =
                (None, rnd, rand g') \<and>
             length rnd = 8 \<and>
             u ! 8 = (rnd ! 0 AND 0x3f) OR 0x80 \<and>
             drop 9 u = drop 1 rnd) \<and>
      (\<forall>c l. fst (NewV6AtTime (g\<lparr>clockSequence := c, lastTime := l\<rparr>) atTime) = Inr u)) \<and>
   (NewV6 h = (Inr v, h') \<longrightarrow>
      epochFunc h' = stl (epochFunc h) \<and>
      length v = 16 \<and>
      v ! 0 = ucast (drop_bit 52 (getEpoch (shd (epochFunc h)))) \<and>
      v ! 1 = ucast (drop_bit 44 (getEpoch (shd (epochFunc h)))) \<and>
      v ! 2 = ucast (drop_bit 36 (getEpoch (shd (epochFunc h)))) \<and>
      v ! 3 = ucast (drop_bit 28 (getEpoch (shd (epochFunc h)))) \<and>
      v ! 4 = ucast (drop_bit 20 (getEpoch (shd (epochFunc h)))) \<and>
      v ! 5 = ucast (drop_bit 12 (getEpoch (shd (epochFunc h)))) \<and>
      v ! 6 = 0x60 OR (ucast (drop_bit 8 (getEpoch (shd (epochFunc h)))) AND 0x0f) \<and>
      v ! 7 = ucast (getEpoch (shd (epochFunc h))) \<and>
      (\<exists>rnd. ReadFull (rand (snd (seedClockSequence h))) (replicate 8 0) =
                (None, rnd, rand h') \<and>
             length rnd = 8 \<and>
             v ! 8 = (rnd ! 0 AND 0x3f) OR 0x80 \<and>
             drop 9 v = drop 1 rnd) \<and>
      (\<forall>c l. fst (NewV6 (h\<lparr>clockSequence := c, lastTime := l\<rparr>)) = Inr v))"
proof (intro conjI impI)
  assume a: "NewV6 h = (Inr v, h')"
  let ?h0 = "h\<lparr>epochFunc := stl (epochFunc h)\<rparr>"
  let ?t = "shd (epochFunc h)"
  from a have call: "NewV6AtTime ?h0 ?t = (Inr v, h')"
    by (simp add: NewV6_unfold)
  note r = NewV6AtTime_bytes [OF call]
  show "epochFunc h' = stl (epochFunc h)"
    using NewV6AtTime_epochFunc [of ?h0 ?t] call by simp
  show "length v = 16" using r by blast
  show "v ! 0 = ucast (drop_bit 52 (getEpoch ?t))" using r by blast
  show "v ! 1 = ucast (drop_bit 44 (getEpoch ?t))" using r by blast
  show "v ! 2 = ucast (drop_bit 36 (getEpoch ?t))" using r by blast
  show "v ! 3 = ucast (drop_bit 28 (getEpoch ?t))" using r by blast
  show "v ! 4 = ucast (drop_bit 20 (getEpoch ?t))" using r by blast
  show "v ! 5 = ucast (drop_bit 12 (getEpoch ?t))" using r by blast
  show "v ! 6 = 0x60 OR (ucast (drop_bit 8 (getEpoch ?t)) AND 0x0f)" using r by blast
  show "v ! 7 = ucast (getEpoch ?t)" using r by blast
  from r have "\<exists>rnd. ReadFull (rand (snd (seedClockSequence ?h0))) (replicate 8 0) =
                (None, rnd, rand h') \<and>
             length rnd = 8 \<and>
             v ! 8 = (rnd ! 0 AND 0x3f) OR 0x80 \<and>
             drop 9 v = drop 1 rnd"
    by blast
  then show "\<exists>rnd. ReadFull (rand (snd (seedClockSequence h))) (replicate 8 0) =
                (None, rnd, rand h') \<and>
             length rnd = 8 \<and>
             v ! 8 = (rnd ! 0 AND 0x3f) OR 0x80 \<and>
             drop 9 v = drop 1 rnd"
    by (simp only: seedClockSequence_epochFunc)
  from r have ind: "\<forall>c l. fst (NewV6AtTime (?h0\<lparr>clockSequence := c, lastTime := l\<rparr>) ?t) = Inr v"
    by blast
  show "\<forall>c l. fst (NewV6 (h\<lparr>clockSequence := c, lastTime := l\<rparr>)) = Inr v"
    using ind by (simp add: NewV6_unfold epochFunc_update_last)
qed (use NewV6AtTime_bytes [of g atTime u g'] in blast)+

theorem NewV6_layout_witness:
  "NewV6AtTime
     (NewGenWithOptions (\<lambda>_. Inl HWAddrError) (Time 1 0 ## sconst (Time 5 0)) (shortReader 8 0xFF))
     (Time 1 0) =
     (Inr [0x1b, 0x21, 0xdd, 0x21, 0x41, 0x9d, 0x66, 0x80,
           0xbf, 0xff, 0xff, 0xff, 0xff, 0xff, 0xff, 0xff],
      (NewGenWithOptions (\<lambda>_. Inl HWAddrError) (Time 1 0 ## sconst (Time 5 0)) (shortReader 8 0xFF))
        \<lparr>clockSequenceOnce := True, clockSequence := 0xFFFF, lastTime := 0x1b21dd21419d680\<rparr>) \<and>
   getEpoch (Time 1 0) = 0x1b21dd21419d680 \<and>
   fst (NewV6AtTime
      ((NewGenWithOptions (\<lambda>_. Inl HWAddrError) (Time 1 0 ## sconst (Time 5 0)) (shortReader 8 0xFF))
         \<lparr>clockSequence := 7, lastTime := 9\<rparr>)
      (Time 1 0)) =
     Inr [0x1b, 0x21, 0xdd, 0x21, 0x41, 0x9d, 0x66, 0x80,
          0xbf, 0xff, 0xff, 0xff, 0xff, 0xff, 0xff, 0xff] \<and>
   NewV6
     (NewGenWithOptions (\<lambda>_. Inl HWAddrError) (Time 1 0 ## sconst (Time 5 0)) (shortReader 8 0xFF)) =
     (Inr [0x1b, 0x21, 0xdd, 0x21, 0x41, 0x9d, 0x66, 0x80,
           0xbf, 0xff, 0xff, 0xff, 0xff, 0xff, 0xff, 0xff],
      (NewGenWithOptions (\<lambda>_. Inl HWAddrError) (Time 1 0 ## sconst (Time 5 0)) (shortReader 8 0xFF))
        \<lparr>epochFunc := sconst (Time 5 0), clockSequenceOnce := True, clockSequence := 0xFFFF,
          lastTime := 0x1b21dd21419d680\<rparr>) \<and>
   shd (epochFunc
     (NewGenWithOptions (\<lambda>_. Inl HWAddrError) (Time 1 0 ## sconst (Time 5 0)) (shortReader 8 0xFF))) =
     Time 1 0 \<and>
   fst (NewV6
      ((NewGenWithOptions (\<lambda>_. Inl HWAddrError) (Time 1 0 ## sconst (Time 5 0)) (shortReader 8 0xFF))
         \<lparr>clockSequence := 7, lastTime := 9\<rparr>)) =
     Inr [0x1b, 0x21, 0xdd, 0x21, 0x41, 0x9d, 0x66, 0x80,
          0xbf, 0xff, 0xff, 0xff, 0xff, 0xff, 0xff, 0xff]"
proof -
  let ?g = "NewGenWithOptions (\<lambda>_. Inl HWAddrError) (Time 1 0 ## sconst (Time 5 0)) (shortReader 8 0xFF)"
  let ?u = "[0x1b, 0x21, 0xdd, 0x21, 0x41, 0x9d, 0x66, 0x80,
           0xbf, 0xff, 0xff, 0xff, 0xff, 0xff, 0xff, 0xff] :: byte list"
  let ?g1 = "?g\<lparr>clockSequenceOnce := True, clockSequence := 0xFFFF, lastTime := 0x1b21dd21419d680\<rparr>"
  let ?g2 = "?g\<lparr>epochFunc := sconst (Time 5 0), clockSequenceOnce := True, clockSequence := 0xFFFF,
          lastTime := 0x1b21dd21419d680\<rparr>"
  have call: "NewV6AtTime ?g (Time 1 0) = (Inr ?u, ?g1)"
    by (simp add: NewV6AtTime_def getClockSequence_def seedClockSequence_def
        ReadFull_shortReader timestampOf_def getEpoch_1s NewGenWithOptions_def Let_def
        PutUint16_def PutUint32_def SetVersion_def SetVariant_def Uint16_def replicate_unfold)
  have now: "shd (epochFunc ?g) = Time 1 0"
    by (simp add: NewGenWithOptions_def)
  have call6: "NewV6 ?g = (Inr ?u, ?g2)"
    by (simp add: NewV6_def callEpoch_def NewV6AtTime_def getClockSequence_def
        seedClockSequence_def ReadFull_shortReader timestampOf_def getEpoch_1s
        NewGenWithOptions_def Let_def PutUint16_def PutUint32_def SetVersion_def
        SetVariant_def Uint16_def replicate_unfold)
  note r = NewV6_layout [where g = ?g and atTime = "Time 1 0" and u = ?u and g' = ?g1
      and h = ?g and v = ?u and h' = ?g2]
  from r call have
    "\<forall>c l. fst (NewV6AtTime (?g\<lparr>clockSequence := c, lastTime := l\<rparr>) (Time 1 0)) = Inr ?u"
    by blast
  then have a: "fst (NewV6AtTime (?g\<lparr>clockSequence := 7, lastTime := 9\<rparr>) (Time 1 0)) = Inr ?u"
    by blast
  from r call6 have
    "\<forall>c l. fst (NewV6 (?g\<lparr>clockSequence := c, lastTime := l\<rparr>)) = Inr ?u"
    by blast
  then have b: "fst (NewV6 (?g\<lparr>clockSequence := 7, lastTime := 9\<rparr>)) = Inr ?u"
    by blast
  show ?thesis
    by (rule conjI call getEpoch_1s a call6 now b)+
qed

section \<open>The hash-based versions\<close>

lemma newFromHash_length: "length (newFromHash h ns name) = 16"
  by (simp add: newFromHash_def copy_bytes_def)

lemma NewV3_length: "length (NewV3 md5 g ns name) = 16"
  by (simp add: NewV3_def SetVariant_def SetVersion_def newFromHash_length)

lemma NewV5_length: "length (NewV5 sha1 g ns name) = 16"
  by (simp add: NewV5_def SetVariant_def SetVersion_def newFromHash_length)

lemma not_inj_into_16_bytes:
  fixes f :: "string \<Rightarrow> byte list"
  assumes "\<And>x. length (f x) = 16"
  shows "\<exists>x y. x \<noteq> y \<and> f x = f y"
proof -
  have "range f \<subseteq> {xs. set xs \<subseteq> UNIV \<and> length xs = 16}"
    using assms by auto
  moreover have "finite {xs :: byte list. set xs \<subseteq> UNIV \<and> length xs = 16}"
    by (rule finite_lists_length_eq) simp
  ultimately have "finite (range f)"
    by (rule finite_subset)
  moreover have "infinite (UNIV :: string set)"
    by (rule infinite_UNIV_listI)
  ultimately have "\<not> inj f"
    using finite_imageD by blast
  then show ?thesis
    by (auto simp add: inj_on_def)
qed



lemma newFromHash_nth:
  "16 \<le> length (h (ns @ bytes_of name)) \<Longrightarrow> i < 16 \<Longrightarrow>
   newFromHash h ns name ! i = h (ns @ bytes_of name) ! i"
  by (simp add: newFromHash_def copy_bytes_def nth_append)

lemma version_variant_bytes:
  assumes "length u = 16"
  shows "length (SetVariant (SetVersion v u)) = 16"
    and "i < 16 \<Longrightarrow> i \<noteq> 6 \<Longrightarrow> i \<noteq> 8 \<Longrightarrow> SetVariant (SetVersion v u) ! i = u ! i"
    and "SetVariant (SetVersion v u) ! 6 = (u ! 6 AND 0x0f) OR push_bit 4 v"
    and "SetVariant (SetVersion v u) ! 8 = (u ! 8 AND 0x3f) OR 0x80"
  using assms by (simp_all add: SetVariant_def SetVersion_def)


lemma version_nibbles: "push_bit 4 (3 :: byte) = 0x30" "push_bit 4 (5 :: byte) = 0x50"
  by simp_all

text \<open>
  Claim C8 says that two distinct names give distinct identifiers in the same
  namespace. No hash function can do that: the names are infinitely many and the
  identifiers are 16 bytes. Whatever the hash function and the namespace, two distinct
  names with the same \<^verbatim>\<open>NewV3\<close> result exist, and two with the same \<^verbatim>\<open>NewV5\<close> result.
\<close>

theorem hash_versions_collide:
  "\<forall>(h :: Hash) (g :: Gen) ns.
     (\<exists>x y. x \<noteq> y \<and> NewV3 h g ns x = NewV3 h g ns y) \<and>
     (\<exists>x y. x \<noteq> y \<and> NewV5 h g ns x = NewV5 h g ns y)"
proof (intro allI conjI)
  fix h :: Hash and g :: Gen and ns :: UUID
  show "\<exists>x y. x \<noteq> y \<and> NewV3 h g ns x = NewV3 h g ns y"
    using not_inj_into_16_bytes [of "NewV3 h g ns"] by (simp add: NewV3_length)
  show "\<exists>x y. x \<noteq> y \<and> NewV5 h g ns x = NewV5 h g ns y"
    using not_inj_into_16_bytes [of "NewV5 h g ns"] by (simp add: NewV5_length)
qed


text \<open>
  Claim C8, amended. \<^verbatim>\<open>NewV3\<close> and \<^verbatim>\<open>NewV5\<close> are functions of the namespace and the name
  alone: the generator they are called on plays no part. The result has 16 bytes; when
  the digest has at least 16 bytes (MD5 has 16, SHA-1 has 20), every byte but 6 and 8
  is the digest's, byte 6 is the version nibble (3 or 5) over the low nibble of the
  digest's byte 6, and byte 8 is \<open>10\<close> over the low six bits of the digest's byte 8.
\<close>

theorem hash_versions_pure:
  "NewV3 md5 g ns name = NewV3 md5 g' ns name \<and>
   NewV5 sha1 g ns name = NewV5 sha1 g' ns name \<and>
   length (NewV3 md5 g ns name) = 16 \<and>
   length (NewV5 sha1 g ns name) = 16 \<and>
   (16 \<le> length (md5 (ns @ bytes_of name)) \<longrightarrow>
      (\<forall>i < 16. i \<noteq> 6 \<and> i \<noteq> 8 \<longrightarrow>
          NewV3 md5 g ns name ! i = md5 (ns @ bytes_of name) ! i) \<and>
      NewV3 md5 g ns name ! 6 = (md5 (ns @ bytes_of name) ! 6 AND 0x0f) OR 0x30 \<and>
      NewV3 md5 g ns name ! 8 = (md5 (ns @ bytes_of name) ! 8 AND 0x3f) OR 0x80) \<and>
   (16 \<le> length (sha1 (ns @ bytes_of name)) \<longrightarrow>
      (\<forall>i < 16. i \<noteq> 6 \<and> i \<noteq> 8 \<longrightarrow>
          NewV5 sha1 g ns name ! i = sha1 (ns @ bytes_of name) ! i) \<and>
      NewV5 sha1 g ns name ! 6 = (sha1 (ns @ bytes_of name) ! 6 AND 0x0f) OR 0x50 \<and>
      NewV5 sha1 g ns name ! 8 = (sha1 (ns @ bytes_of name) ! 8 AND 0x3f) OR 0x80)"
proof -
  note vv = version_variant_bytes [OF newFromHash_length]
  have same: "NewV3 md5 g ns name = NewV3 md5 g' ns name"
    "NewV5 sha1 g ns name = NewV5 sha1 g' ns name"
    by (simp_all add: NewV3_def NewV5_def)
  have v3: "(\<forall>i < 16. i \<noteq> 6 \<and> i \<noteq> 8 \<longrightarrow>
          NewV3 md5 g ns name ! i = md5 (ns @ bytes_of name) ! i) \<and>
      NewV3 md5 g ns name ! 6 = (md5 (ns @ bytes_of name) ! 6 AND 0x0f) OR 0x30 \<and>
      NewV3 md5 g ns name ! 8 = (md5 (ns @ bytes_of name) ! 8 AND 0x3f) OR 0x80"
    if "16 \<le> length (md5 (ns @ bytes_of name))"
  proof (intro conjI allI impI)
    fix i :: nat
    assume "i < 16" "i \<noteq> 6 \<and> i \<noteq> 8"
    then show "NewV3 md5 g ns name ! i = md5 (ns @ bytes_of name) ! i"
      unfolding NewV3_def using that by (simp add: vv(2) newFromHash_nth)
  next
    show "NewV3 md5 g ns name ! 6 = (md5 (ns @ bytes_of name) ! 6 AND 0x0f) OR 0x30"
      unfolding NewV3_def using that by (simp only: vv(3) version_nibbles newFromHash_nth)
    show "NewV3 md5 g ns name ! 8 = (md5 (ns @ bytes_of name) ! 8 AND 0x3f) OR 0x80"
      unfolding NewV3_def using that by (simp only: vv(4) newFromHash_nth)
  qed
  have v5: "(\<forall>i < 16. i \<noteq> 6 \<and> i \<noteq> 8 \<longrightarrow>
          NewV5 sha1 g ns name ! i = sha1 (ns @ bytes_of name) ! i) \<and>
      NewV5 sha1 g ns name ! 6 = (sha1 (ns @ bytes_of name) ! 6 AND 0x0f) OR 0x50 \<and>
      NewV5 sha1 g ns name ! 8 = (sha1 (ns @ bytes_of name) ! 8 AND 0x3f) OR 0x80"
    if "16 \<le> length (sha1 (ns @ bytes_of name))"
  proof (intro conjI allI impI)
    fix i :: nat
    assume "i < 16" "i \<noteq> 6 \<and> i \<noteq> 8"
    then show "NewV5 sha1 g ns name ! i = sha1 (ns @ bytes_of name) ! i"
      unfolding NewV5_def using that by (simp add: vv(2) newFromHash_nth)
  next
    show "NewV5 sha1 g ns name ! 6 = (sha1 (ns @ bytes_of name) ! 6 AND 0x0f) OR 0x50"
      unfolding NewV5_def using that by (simp only: vv(3) version_nibbles newFromHash_nth)
    show "NewV5 sha1 g ns name ! 8 = (sha1 (ns @ bytes_of name) ! 8 AND 0x3f) OR 0x80"
      unfolding NewV5_def using that by (simp only: vv(4) newFromHash_nth)
  qed
  show ?thesis
    using same v3 v5 NewV3_length [of md5 g ns name] NewV5_length [of sha1 g ns name]
    by blast
qed


theorem hash_versions_pure_witness:
  "16 \<le> length (((\<lambda>bs. replicate 16 (of_nat (length bs))) :: Hash) (Nil_UUID @ bytes_of ''x'')) \<and>
   16 \<le> length (((\<lambda>bs. replicate 20 (of_nat (length bs))) :: Hash) (Nil_UUID @ bytes_of ''x'')) \<and>
   NewV3 (\<lambda>bs. replicate 16 (of_nat (length bs)))
     (NewGenWithOptions (\<lambda>_. Inl HWAddrError) (sconst (Time 1 0)) zeroReader) Nil_UUID ''x'' =
   NewV3 (\<lambda>bs. replicate 16 (of_nat (length bs)))
     (NewGenWithOptions (\<lambda>_. Inr []) (sconst (Time 2 0)) (shortReader 1 0)) Nil_UUID ''x'' \<and>
   NewV3 (\<lambda>bs. replicate 16 (of_nat (length bs)))
     (NewGenWithOptions (\<lambda>_. Inl HWAddrError) (sconst (Time 1 0)) zeroReader) Nil_UUID ''x'' ! 0 = 0x11 \<and>
   NewV3 (\<lambda>bs. replicate 16 (of_nat (length bs)))
     (NewGenWithOptions (\<lambda>_. Inl HWAddrError) (sconst (Time 1 0)) zeroReader) Nil_UUID ''x'' ! 6 = 0x31 \<and>
   NewV3 (\<lambda>bs. replicate 16 (of_nat (length bs)))
     (NewGenWithOptions (\<lambda>_. Inl HWAddrError) (sconst (Time 1 0)) zeroReader) Nil_UUID ''x'' ! 8 = 0x91 \<and>
   NewV5 (\<lambda>bs. replicate 20 (of_nat (length bs)))
     (NewGenWithOptions (\<lambda>_. Inl HWAddrError) (sconst (Time 1 0)) zeroReader) Nil_UUID ''x'' ! 6 = 0x51 \<and>
   NewV5 (\<lambda>bs. replicate 20 (of_nat (length bs)))
     (NewGenWithOptions (\<lambda>_. Inl HWAddrError) (sconst (Time 1 0)) zeroReader) Nil_UUID ''x'' ! 8 = 0x91"
proof -
  let ?md5 = "(\<lambda>bs. replicate 16 (of_nat (length bs))) :: Hash"
  let ?sha1 = "(\<lambda>bs. replicate 20 (of_nat (length bs))) :: Hash"
  let ?g = "NewGenWithOptions (\<lambda>_. Inl HWAddrError) (sconst (Time 1 0)) zeroReader"
  let ?g' = "NewGenWithOptions (\<lambda>_. Inr []) (sconst (Time 2 0)) (shortReader 1 0)"
  have len: "length (Nil_UUID @ bytes_of ''x'') = 17"
    by (simp add: Nil_UUID_def bytes_of_def)
  have h3: "16 \<le> length (?md5 (Nil_UUID @ bytes_of ''x''))"
    and h5: "16 \<le> length (?sha1 (Nil_UUID @ bytes_of ''x''))"
    by simp_all
  have d3: "?md5 (Nil_UUID @ bytes_of ''x'') ! i = 0x11" if "i < 16" for i
    using that by (simp add: Nil_UUID_def bytes_of_def)
  have d5: "?sha1 (Nil_UUID @ bytes_of ''x'') ! i = 0x11" if "i < 16" for i
    using that by (simp add: Nil_UUID_def bytes_of_def)
  note r = hash_versions_pure [where ?md5.0 = ?md5 and ?sha1.0 = ?sha1 and g = ?g and g' = ?g'
      and ns = Nil_UUID and name = "''x''"]
  from r have same: "NewV3 ?md5 ?g Nil_UUID ''x'' = NewV3 ?md5 ?g' Nil_UUID ''x''"
    by blast
  from r h3 have all3: "\<forall>i<16. i \<noteq> 6 \<and> i \<noteq> 8 \<longrightarrow>
      NewV3 ?md5 ?g Nil_UUID ''x'' ! i = ?md5 (Nil_UUID @ bytes_of ''x'') ! i"
    and a6: "NewV3 ?md5 ?g Nil_UUID ''x'' ! 6 = (?md5 (Nil_UUID @ bytes_of ''x'') ! 6 AND 0x0f) OR 0x30"
    and a8: "NewV3 ?md5 ?g Nil_UUID ''x'' ! 8 = (?md5 (Nil_UUID @ bytes_of ''x'') ! 8 AND 0x3f) OR 0x80"
    by blast+
  from all3 have a0: "NewV3 ?md5 ?g Nil_UUID ''x'' ! 0 = ?md5 (Nil_UUID @ bytes_of ''x'') ! 0"
    by simp
  from r h5 have b6: "NewV5 ?sha1 ?g Nil_UUID ''x'' ! 6 = (?sha1 (Nil_UUID @ bytes_of ''x'') ! 6 AND 0x0f) OR 0x50"
    and b8: "NewV5 ?sha1 ?g Nil_UUID ''x'' ! 8 = (?sha1 (Nil_UUID @ bytes_of ''x'') ! 8 AND 0x3f) OR 0x80"
    by blast+
  have c0: "NewV3 ?md5 ?g Nil_UUID ''x'' ! 0 = 0x11" using a0 d3 [of 0] by simp
  have c6: "NewV3 ?md5 ?g Nil_UUID ''x'' ! 6 = 0x31" using a6 d3 [of 6] by simp
  have c8: "NewV3 ?md5 ?g Nil_UUID ''x'' ! 8 = 0x91" using a8 d3 [of 8] by simp
  have e6: "NewV5 ?sha1 ?g Nil_UUID ''x'' ! 6 = 0x51" using b6 d5 [of 6] by simp
  have e8: "NewV5 ?sha1 ?g Nil_UUID ''x'' ! 8 = 0x91" using b8 d5 [of 8] by simp
  show ?thesis by (rule conjI h3 h5 same c0 c6 c8 e6 e8)+
qed

section \<open>The order of a batch\<close>

text \<open>
  With a clock that always shows the instant \<open>t\<close> and a random source of zero bytes,
  each \<^verbatim>\<open>newMonotonicV7\<close> call succeeds, and the loop of \<^verbatim>\<open>GenerateBatchV7\<close> fills
  position \<open>k\<close> with the identifier of the first counter plus \<open>k - i\<close>.
\<close>

lemma newMonotonicV7_steady:
  assumes "epochFunc g = sconst t" and "rand g = zeroReader"
  shows "\<exists>g'. newMonotonicV7 g =
           (Inr (SetVariant (take 8 (v7_head (UnixMilli t)
                   (if UnixMilli t \<le> lastTime g then monotonicCounter g + 1 else 0))
                 @ replicate 8 0)), g') \<and>
         epochFunc g' = sconst t \<and> rand g' = zeroReader \<and>
         lastTime g' = UnixMilli t \<and>
         monotonicCounter g' =
           (if UnixMilli t \<le> lastTime g then monotonicCounter g + 1 else 0)"
  using assms
  by (simp add: newMonotonicV7_def callEpoch_def getMonotonicClockSequence_def
      timestampOf_def ReadFull_zeroReader Let_def v7_head_def SetVersion_def PutUint16_def)


lemma batchLoop_steady:
  assumes "epochFunc g = sconst t" and "rand g = zeroReader"
    and "length uuids = n" and "i \<le> n"
  shows "\<exists>us g'. batchLoop i n g uuids = (Inr us, g') \<and> length us = n \<and>
           (\<forall>k<n. us ! k =
              (if k < i then uuids ! k
               else SetVariant (take 8 (v7_head (UnixMilli t)
                      ((if UnixMilli t \<le> lastTime g then monotonicCounter g + 1 else 0)
                       + of_nat (k - i)))
                    @ replicate 8 0)))"
  using assms
proof (induction "n - i" arbitrary: i g uuids)
  case 0
  then have "i = n" by simp
  with 0 show ?case by (simp add: batchLoop.simps [of n])
next
  case (Suc d)
  let ?c = "if UnixMilli t \<le> lastTime g then monotonicCounter g + 1 else 0"
  let ?mk = "\<lambda>c. SetVariant (take 8 (v7_head (UnixMilli t) c) @ replicate 8 0)"
  from Suc.hyps(2) have lt: "i < n" by simp
  from newMonotonicV7_steady [OF Suc.prems(1,2)] obtain g1 where
    step: "newMonotonicV7 g = (Inr (?mk ?c), g1)" and
    g1: "epochFunc g1 = sconst t" "rand g1 = zeroReader" "lastTime g1 = UnixMilli t"
      "monotonicCounter g1 = ?c"
    by blast
  have unfold: "batchLoop i n g uuids = batchLoop (i + 1) n g1 (uuids[i := ?mk ?c])"
    using lt step by (simp add: batchLoop.simps [of i])
  have d: "d = n - (i + 1)" using Suc.hyps(2) by simp
  have len: "length (uuids[i := ?mk ?c]) = n" using Suc.prems(3) by simp
  have le: "i + 1 \<le> n" using lt by simp
  from Suc.hyps(1) [OF d g1(1,2) len le] obtain us g' where
    res: "batchLoop (i + 1) n g1 (uuids[i := ?mk ?c]) = (Inr us, g')" and
    lus: "length us = n" and
    nth: "\<forall>k<n. us ! k =
              (if k < i + 1 then (uuids[i := ?mk ?c]) ! k
               else ?mk ((if UnixMilli t \<le> lastTime g1 then monotonicCounter g1 + 1 else 0)
                       + of_nat (k - (i + 1))))"
    by blast
  have "us ! k = (if k < i then uuids ! k else ?mk (?c + of_nat (k - i)))" if k: "k < n" for k
  proof -
    consider "k < i" | "k = i" | "i < k" by linarith
    then show ?thesis
    proof cases
      case 1
      with nth k show ?thesis by simp
    next
      case 2
      with nth k Suc.prems(3) show ?thesis by simp
    next
      case 3
      then have "k - i = Suc (k - (i + 1))" by simp
      then have "(of_nat (k - i) :: 16 word) = 1 + of_nat (k - (i + 1))" by simp
      with nth k 3 g1(3,4) show ?thesis by (simp add: add.assoc)
    qed
  qed
  with unfold res lus show ?case by simp
qed


text \<open>
  Claim C1 says that a batch of any size, issued within one millisecond, is strictly
  increasing in byte order. The counter is written to bytes 6-7 and the version nibble
  then replaces its top four bits, so only twelve bits of it are left in the
  identifier. On a new generator whose clock always shows 1 s and whose random source
  returns zero bytes, a batch of 4097 succeeds, and its last identifier (counter 4096,
  bytes 6-7 = 70 00) is less than the one before it (counter 4095, bytes 6-7 = 7F FF).
\<close>

theorem batch_order_breaks_at_4097:
  "\<exists>us g'.
     GenerateBatchV7 (NewMonotonicGen (\<lambda>_. Inl HWAddrError) (sconst (Time 1 0)) zeroReader) 4097 =
       (Inr us, g') \<and>
     length us = 4097 \<and>
     us ! 4095 = [0, 0, 0, 0, 0x03, 0xE8, 0x7F, 0xFF, 0x80, 0, 0, 0, 0, 0, 0, 0] \<and>
     us ! 4096 = [0, 0, 0, 0, 0x03, 0xE8, 0x70, 0x00, 0x80, 0, 0, 0, 0, 0, 0, 0] \<and>
     us ! 4096 < us ! 4095"
proof -
  let ?g = "NewMonotonicGen (\<lambda>_. Inl HWAddrError) (sconst (Time 1 0)) zeroReader"
  let ?mk = "\<lambda>c. SetVariant (take 8 (v7_head (UnixMilli (Time 1 0)) c) @ replicate 8 0)"
  have g: "epochFunc ?g = sconst (Time 1 0)" "rand ?g = zeroReader"
    "lastTime ?g = 0" "monotonicCounter ?g = 0"
    by (simp_all add: NewMonotonicGen_def NewGenWithOptions_def Gen.extend_def)
  have ms: "UnixMilli (Time 1 0) = 1000"
    by (simp add: UnixMilli_def)
  have len: "length (replicate 4097 Nil_UUID) = 4097" by simp
  from batchLoop_steady [OF g(1,2) len, of 0] obtain us g' where
    res: "batchLoop 0 4097 ?g (replicate 4097 Nil_UUID) = (Inr us, g')" and
    lus: "length us = 4097" and
    nth: "\<forall>k<4097. us ! k = ?mk (of_nat k)"
    by (auto simp add: g ms)
  have call: "GenerateBatchV7 ?g 4097 = (Inr us, g')"
    using res by (simp add: GenerateBatchV7_def)
  have a: "us ! 4095 = [0, 0, 0, 0, 0x03, 0xE8, 0x7F, 0xFF, 0x80, 0, 0, 0, 0, 0, 0, 0]"
    using nth
    by (simp add: ms v7_head_def SetVersion_def SetVariant_def PutUint16_def replicate_unfold)
  have b: "us ! 4096 = [0, 0, 0, 0, 0x03, 0xE8, 0x70, 0x00, 0x80, 0, 0, 0, 0, 0, 0, 0]"
    using nth
    by (simp add: ms v7_head_def SetVersion_def SetVariant_def PutUint16_def replicate_unfold)
  have c: "us ! 4096 < us ! 4095"
    by (simp add: a b)
  from call lus a b c show ?thesis by blast
qed

end
